theory Spec2Isabelle
  imports Main "HOL-Library.AList" "HOL-Library.Char_ord" "HOL-Library.List_Lexorder"
begin

section \<open>Python values and dictionaries\<close>

text \<open>
  The extraction scripts keep every record as a Python \<^verbatim>\<open>dict\<close>. A dictionary from
  names to status strings (attendance, per-item votes, the computed vote columns) is an
  association list in insertion order; \<^const>\<open>AList.update\<close> is \<^verbatim>\<open>d[k] = v\<close>: it
  overwrites the value of a key that is present and appends a new key at the end.
  Raw values of the records API that the scripts only copy are \<open>json\<close> scalars.
\<close>

datatype json = JNull | JInt int | JStr string

type_synonym pydict = "(string \<times> string) list"

text \<open>\<^verbatim>\<open>d.get(k, default)\<close>\<close>

definition dict_get :: "('k \<times> 'v) list \<Rightarrow> 'k \<Rightarrow> 'v \<Rightarrow> 'v" where
  "dict_get d k dflt = (case map_of d k of Some v \<Rightarrow> v | None \<Rightarrow> dflt)"

section \<open>Agenda items\<close>

text \<open>
  The dictionary \<^verbatim>\<open>item_data\<close> built by \<^verbatim>\<open>collect_event_items\<close>
  (extract_columbus.py, lines 224-262) has a fixed set of keys, so it is a record.
  \<open>passed\<close> and \<open>matter_id\<close> come from \<^verbatim>\<open>item.get(...)\<close> without a default:
  \<open>None\<close> is Python's \<^verbatim>\<open>None\<close>. The key \<^verbatim>\<open>item_votes\<close> is added by the third
  pass of the collector; every reader uses \<^verbatim>\<open>item.get('item_votes', {})\<close>, so a missing
  key is the empty dictionary.
\<close>

record item =
  event_id :: int
  event_date :: string
  event_time :: string
  event_location :: string
  event_item_id :: int
  agenda_number :: json
  agenda_sequence :: json
  matter_file :: json
  matter_name :: json
  matter_type :: json
  matter_status :: json
  title :: string
  action :: json
  action_text :: json
  passed :: "int option"
  consent :: json
  tally :: json
  mover :: json
  seconder :: json
  roll_call_flag :: json
  matter_id :: "int option"
  matter_title :: string
  matter_type_name :: string
  matter_status_name :: string
  matter_intro_date :: string
  matter_passed_date :: string
  matter_enactment_date :: string
  matter_enactment_number :: string
  matter_requester :: string
  matter_body_name :: string
  attachment_links :: string
  attendance :: pydict
  agenda_link :: string
  minutes_link :: string
  video_link :: string
  Agenda_item_fulltext :: string
  item_votes :: pydict

text \<open>
  A sample item for the worked examples: the values \<^verbatim>\<open>item_data\<close> has for an API
  item that carries nothing but its identifiers, before enrichment.
\<close>

definition sample_item :: "int \<Rightarrow> int \<Rightarrow> int option \<Rightarrow> int option \<Rightarrow> pydict \<Rightarrow> pydict \<Rightarrow> item" where
  "sample_item eid iid p mid att iv =
     \<lparr> event_id = eid, event_date = ''2023-01-09'', event_time = [], event_location = [],
       event_item_id = iid, agenda_number = JNull, agenda_sequence = JNull,
       matter_file = JNull, matter_name = JNull, matter_type = JNull, matter_status = JNull,
       title = ''Ordinance'', action = JNull, action_text = JNull, passed = p,
       consent = JNull, tally = JNull, mover = JNull, seconder = JNull,
       roll_call_flag = JInt 0, matter_id = mid,
       matter_title = [], matter_type_name = [], matter_status_name = [],
       matter_intro_date = [], matter_passed_date = [], matter_enactment_date = [],
       matter_enactment_number = [], matter_requester = [], matter_body_name = [],
       attachment_links = [], attendance = att,
       agenda_link = [], minutes_link = [], video_link = [],
       Agenda_item_fulltext = [], item_votes = iv \<rparr>"

section \<open>Vote assignment\<close>

text \<open>\<^verbatim>\<open>ColumbusExtractionWorkflow.VOTE_MAP\<close> (extract_columbus.py, lines 446-453).\<close>

definition VOTE_MAP :: pydict where
  "VOTE_MAP =
     [(''Affirmative'', ''Yes''),
      (''Negative'', ''No''),
      (''Abstained'', ''Abstain''),
      (''Absent@vote'', ''Absent''),
      (''Absent'', ''Absent''),
      (''Present'', ''Present'')]"

text \<open>
  \<^verbatim>\<open>_assign_votes(self, item, members_list)\<close> (extract_columbus.py, lines 455-481).
  \<^verbatim>\<open>votes\<close> starts empty; each of the three branches runs one loop over
  \<^verbatim>\<open>members_list\<close> that stores one value per member. \<^verbatim>\<open>member in item_votes\<close>
  followed by \<^verbatim>\<open>item_votes[member]\<close> is the \<open>case\<close> on the lookup. The test
  \<^verbatim>\<open>if item_votes\<close> is non-emptiness of the dictionary.
\<close>

definition assign_votes :: "item \<Rightarrow> string list \<Rightarrow> pydict" where
  "assign_votes itm members_list =
     (let votes = [];
          item_votes = item_votes itm
      in if item_votes \<noteq> [] then
           foldl (\<lambda>votes member.
                    case map_of item_votes member of
                      Some recorded \<Rightarrow>
                        AList.update member (dict_get VOTE_MAP recorded recorded) votes
                    | None \<Rightarrow>
                        (let att = dict_get (attendance itm) member ''''
                         in if att = ''Absent'' \<or> att = ''Absent@vote''
                            then AList.update member ''Absent'' votes
                            else AList.update member '''' votes))
                 votes members_list
         else if passed itm = Some 1 then
           foldl (\<lambda>votes member.
                    let att = dict_get (attendance itm) member ''''
                    in if att = ''Absent'' \<or> att = ''Absent@vote''
                       then AList.update member ''Absent'' votes
                       else AList.update member ''Yes'' votes)
                 votes members_list
         else
           foldl (\<lambda>votes member. AList.update member '''' votes) votes members_list)"

text \<open>The value each branch of \<open>assign_votes\<close> stores for one member.\<close>

definition recorded_or_attendance :: "item \<Rightarrow> string \<Rightarrow> string" where
  "recorded_or_attendance itm member =
     (case map_of (item_votes itm) member of
        Some recorded \<Rightarrow> dict_get VOTE_MAP recorded recorded
      | None \<Rightarrow>
          (if dict_get (attendance itm) member '''' = ''Absent''
              \<or> dict_get (attendance itm) member '''' = ''Absent@vote''
           then ''Absent'' else ''''))"

definition consent_vote :: "item \<Rightarrow> string \<Rightarrow> string" where
  "consent_vote itm member =
     (if dict_get (attendance itm) member '''' = ''Absent''
         \<or> dict_get (attendance itm) member '''' = ''Absent@vote''
      then ''Absent'' else ''Yes'')"

definition member_vote :: "item \<Rightarrow> string \<Rightarrow> string" where
  "member_vote itm member =
     (if item_votes itm \<noteq> [] then recorded_or_attendance itm member
      else if passed itm = Some 1 then consent_vote itm member
      else '''')"

section \<open>Decimal text of integers\<close>

text \<open>
  \<^verbatim>\<open>str(n)\<close> and the f-string field \<^verbatim>\<open>{n}\<close> of a Python integer: its decimal
  digits without padding, after a minus sign when it is negative.
\<close>

definition digit_char :: "nat \<Rightarrow> char" where
  "digit_char d = ''0123456789'' ! d"

function py_str_nat :: "nat \<Rightarrow> string" where
  "py_str_nat n = (if n < 10 then [digit_char n] else py_str_nat (n div 10) @ [digit_char (n mod 10)])"
  by pat_completeness auto
termination
  by (relation "measure id") auto

declare py_str_nat.simps [simp del]

definition py_str_int :: "int \<Rightarrow> string" where
  "py_str_int i = (if i < 0 then CHR ''-'' # py_str_nat (nat (- i)) else py_str_nat (nat i))"

text \<open>
  Reading decimal text back, as \<^verbatim>\<open>int(s)\<close> does for the texts \<open>py_str_int\<close>
  produces; anything that is not an optional minus sign before one or more digits is
  refused.
\<close>

definition digit_values :: "(char \<times> nat) list" where
  "digit_values =
     [(CHR ''0'', 0), (CHR ''1'', 1), (CHR ''2'', 2), (CHR ''3'', 3), (CHR ''4'', 4),
      (CHR ''5'', 5), (CHR ''6'', 6), (CHR ''7'', 7), (CHR ''8'', 8), (CHR ''9'', 9)]"

definition digit_of :: "char \<Rightarrow> nat option" where
  "digit_of c = map_of digit_values c"

fun nat_of_digits :: "nat \<Rightarrow> string \<Rightarrow> nat option" where
  "nat_of_digits acc [] = Some acc"
| "nat_of_digits acc (c # cs) =
     (case digit_of c of None \<Rightarrow> None | Some d \<Rightarrow> nat_of_digits (10 * acc + d) cs)"

definition py_int :: "string \<Rightarrow> int option" where
  "py_int s =
     (case s of
        [] \<Rightarrow> None
      | c # cs \<Rightarrow>
          if c = CHR ''-''
          then (if cs = [] then None else map_option (\<lambda>n. - int n) (nat_of_digits 0 cs))
          else map_option int (nat_of_digits 0 s))"

section \<open>Date-range resolver\<close>

datatype py_error = KeyError | TypeError | CsvError

text \<open>
  \<^verbatim>\<open>get_quarter_dates(year, quarter)\<close> (extract_columbus.py, lines 42-56). The
  dictionary \<^verbatim>\<open>quarters\<close> has the keys 1 to 4; \<^verbatim>\<open>quarters[quarter]\<close> raises
  \<^verbatim>\<open>KeyError\<close> for any other quarter, before anything is formatted.
\<close>

definition quarters :: "(int \<times> string \<times> string) list" where
  "quarters =
     [(1, (''01-01'', ''04-01'')),
      (2, (''04-01'', ''07-01'')),
      (3, (''07-01'', ''10-01'')),
      (4, (''10-01'', ''01-01''))]"

definition get_quarter_dates :: "int \<Rightarrow> int \<Rightarrow> py_error + (string \<times> string)" where
  "get_quarter_dates year quarter =
     (case map_of quarters quarter of
        None \<Rightarrow> Inl KeyError
      | Some (start_md, end_md) \<Rightarrow>
          (let start = py_str_int year @ ''-'' @ start_md;
               end_year = (if quarter = 4 then year + 1 else year);
               end = py_str_int end_year @ ''-'' @ end_md
           in Inr (start, end)))"

text \<open>
  The calendar date a text \<^verbatim>\<open>Y-MM-DD\<close> denotes: the last six characters are
  \<^verbatim>\<open>-MM-DD\<close>, what stands before them is the year. Dates are ordered by year, then
  month, then day.
\<close>

type_synonym date = "int \<times> nat \<times> nat"

definition two_digits :: "char \<Rightarrow> char \<Rightarrow> nat option" where
  "two_digits a b =
     (case (digit_of a, digit_of b) of (Some x, Some y) \<Rightarrow> Some (10 * x + y) | _ \<Rightarrow> None)"

definition parse_date :: "string \<Rightarrow> date option" where
  "parse_date s =
     (case drop (length s - 6) s of
        [c1, m1, m2, c2, d1, d2] \<Rightarrow>
          (if c1 = CHR ''-'' \<and> c2 = CHR ''-''
           then (case (py_int (take (length s - 6) s), two_digits m1 m2, two_digits d1 d2) of
                   (Some y, Some m, Some d) \<Rightarrow> Some (y, m, d)
                 | _ \<Rightarrow> None)
           else None)
      | _ \<Rightarrow> None)"

definition date_less :: "date \<Rightarrow> date \<Rightarrow> bool" where
  "date_less a b =
     (case (a, b) of
        ((y1, m1, d1), (y2, m2, d2)) \<Rightarrow>
          y1 < y2 \<or> (y1 = y2 \<and> (m1 < m2 \<or> (m1 = m2 \<and> d1 < d2))))"

section \<open>CSV rows\<close>

text \<open>
  A row handed to \<^verbatim>\<open>csv.DictWriter.writerow\<close> is a dictionary from column names to
  Python values. The writer emits, for every name of \<^verbatim>\<open>fieldnames\<close> in order,
  \<^verbatim>\<open>row.get(name, '')\<close> as text: \<^verbatim>\<open>None\<close> as the empty text, an integer by
  \<^verbatim>\<open>str\<close>. A file is its header line and its data lines, each the list of the cells
  stored in it; the quoting that separates the cells is not modelled.
\<close>

type_synonym row = "(string \<times> json) list"

definition csv_cell :: "json \<Rightarrow> string" where
  "csv_cell v = (case v of JNull \<Rightarrow> [] | JInt i \<Rightarrow> py_str_int i | JStr s \<Rightarrow> s)"

definition writerow :: "string list \<Rightarrow> row \<Rightarrow> string list" where
  "writerow fieldnames r = map (\<lambda>k. csv_cell (dict_get r k (JStr ''''))) fieldnames"

record csv_file =
  header :: "string list"
  lines :: "string list list"

text \<open>
  Reading a file back. \<^verbatim>\<open>write_output\<close> opens its files with \<^verbatim>\<open>newline=''\<close>, so a
  cell is stored as it is, line breaks included. \<^verbatim>\<open>load_existing_text\<close> opens the
  votes file with \<^verbatim>\<open>open(csv_path, 'r', encoding='utf-8')\<close>, without
  \<^verbatim>\<open>newline=''\<close>: the text layer then turns every carriage return followed by a line
  feed, and every other carriage return, into one line feed before the reader sees the
  cell.
\<close>

definition carriage_return :: char where
  "carriage_return = CHR 0x0D"

definition line_feed :: char where
  "line_feed = CHR 0x0A"

fun universal_newlines :: "string \<Rightarrow> string" where
  "universal_newlines [] = []"
| "universal_newlines [c] = [if c = carriage_return then line_feed else c]"
| "universal_newlines (c # d # cs) =
     (if c = carriage_return \<and> d = line_feed then line_feed # universal_newlines cs
      else if c = carriage_return then line_feed # universal_newlines (d # cs)
      else c # universal_newlines (d # cs))"

text \<open>
  \<^verbatim>\<open>csv.field_size_limit()\<close>, which the scripts never change: the reader raises
  \<^verbatim>\<open>_csv.Error\<close> on a line with a cell of more characters.
\<close>

definition field_size_limit :: nat where
  "field_size_limit = 131072"

text \<open>One step of \<^verbatim>\<open>csv.reader\<close> over the file as opened for reading: the next line.\<close>

definition reader_next :: "string list \<Rightarrow> py_error + string list" where
  "reader_next stored =
     (let cells = map universal_newlines stored
      in if list_ex (\<lambda>cell. field_size_limit < length cell) cells then Inl CsvError
         else Inr cells)"

text \<open>
  \<^verbatim>\<open>csv.DictReader\<close>: a line that is not empty becomes
  \<^verbatim>\<open>dict(zip(fieldnames, line))\<close>, the names being the first line of the file.
\<close>

definition dict_row :: "string list \<Rightarrow> string list \<Rightarrow> pydict" where
  "dict_row fieldnames cells = foldl (\<lambda>d (k, v). AList.update k v d) [] (zip fieldnames cells)"

text \<open>
  The three output files of a run, by their role in \<^verbatim>\<open>get_output_paths\<close>
  (extract_columbus.py, lines 59-66); \<open>None\<close> is a file that does not exist.
\<close>

record files =
  votes_file :: "csv_file option"
  voted_items_file :: "csv_file option"
  persons_file :: "csv_file option"

text \<open>The fixed columns of both items files (extract_columbus.py, lines 514-524).\<close>

definition base_fieldnames :: "string list" where
  "base_fieldnames =
     [''event_id'', ''event_date'', ''event_time'', ''event_location'',
      ''event_item_id'', ''agenda_number'', ''agenda_sequence'',
      ''matter_file'', ''matter_name'', ''matter_title'', ''matter_type'', ''matter_type_name'',
      ''matter_status'', ''matter_status_name'',
      ''matter_intro_date'', ''matter_passed_date'', ''matter_enactment_date'',
      ''matter_enactment_number'',
      ''matter_requester'', ''matter_body_name'',
      ''title'', ''action'', ''action_text'', ''passed'', ''consent'', ''tally'', ''mover'',
      ''seconder'',
      ''roll_call_flag'', ''agenda_link'', ''minutes_link'', ''video_link'', ''attachment_links'',
      ''Agenda_item_fulltext'']"

definition json_of_flag :: "int option \<Rightarrow> json" where
  "json_of_flag p = (case p of None \<Rightarrow> JNull | Some n \<Rightarrow> JInt n)"

text \<open>
  The scalar entries of the item dictionary, in the order \<^verbatim>\<open>item_data\<close> lists them:
  what \<^verbatim>\<open>item.get(k, '')\<close> finds for a column name \<open>k\<close>. The keys
  \<^verbatim>\<open>attendance\<close> and \<^verbatim>\<open>item_votes\<close> hold dictionaries and are never a column.
\<close>

definition item_scalars :: "item \<Rightarrow> row" where
  "item_scalars itm =
     [(''event_id'', JInt (event_id itm)),
      (''event_date'', JStr (event_date itm)),
      (''event_time'', JStr (event_time itm)),
      (''event_location'', JStr (event_location itm)),
      (''event_item_id'', JInt (event_item_id itm)),
      (''agenda_number'', agenda_number itm),
      (''agenda_sequence'', agenda_sequence itm),
      (''matter_file'', matter_file itm),
      (''matter_name'', matter_name itm),
      (''matter_type'', matter_type itm),
      (''matter_status'', matter_status itm),
      (''title'', JStr (title itm)),
      (''action'', action itm),
      (''action_text'', action_text itm),
      (''passed'', json_of_flag (passed itm)),
      (''consent'', consent itm),
      (''tally'', tally itm),
      (''mover'', mover itm),
      (''seconder'', seconder itm),
      (''roll_call_flag'', roll_call_flag itm),
      (''matter_id'', json_of_flag (matter_id itm)),
      (''matter_title'', JStr (matter_title itm)),
      (''matter_type_name'', JStr (matter_type_name itm)),
      (''matter_status_name'', JStr (matter_status_name itm)),
      (''matter_intro_date'', JStr (matter_intro_date itm)),
      (''matter_passed_date'', JStr (matter_passed_date itm)),
      (''matter_enactment_date'', JStr (matter_enactment_date itm)),
      (''matter_enactment_number'', JStr (matter_enactment_number itm)),
      (''matter_requester'', JStr (matter_requester itm)),
      (''matter_body_name'', JStr (matter_body_name itm)),
      (''attachment_links'', JStr (attachment_links itm)),
      (''agenda_link'', JStr (agenda_link itm)),
      (''minutes_link'', JStr (minutes_link itm)),
      (''video_link'', JStr (video_link itm)),
      (''Agenda_item_fulltext'', JStr (Agenda_item_fulltext itm))]"

text \<open>
  \<^verbatim>\<open>row = {k: item.get(k, '') for k in fieldnames if k not in members_list}\<close>
  (extract_columbus.py, lines 531 and 547; extract_q1_2023.py, line 377).
\<close>

definition base_row :: "item \<Rightarrow> string list \<Rightarrow> string list \<Rightarrow> row" where
  "base_row itm fieldnames members_list =
     map (\<lambda>k. (k, dict_get (item_scalars itm) k (JStr '''')))
       (filter (\<lambda>k. k \<notin> set members_list) fieldnames)"

text \<open>\<^verbatim>\<open>row.update(votes)\<close>: every entry of \<^verbatim>\<open>votes\<close> is stored in the row.\<close>

definition row_update :: "row \<Rightarrow> pydict \<Rightarrow> row" where
  "row_update r votes = foldl (\<lambda>r (member, v). AList.update member (JStr v) r) r votes"

text \<open>
  The body of the row loops of \<^verbatim>\<open>write_output\<close> (extract_columbus.py, lines 530-533
  and 546-549): the row of one item, before \<^verbatim>\<open>writer.writerow(row)\<close>.
\<close>

definition workflow_row :: "item \<Rightarrow> string list \<Rightarrow> string list \<Rightarrow> row" where
  "workflow_row itm fieldnames members_list =
     (let r = base_row itm fieldnames members_list
      in row_update r (assign_votes itm members_list))"

section \<open>The single-quarter script\<close>

text \<open>
  The body of the first row loop of \<^verbatim>\<open>main\<close> in extract_q1_2023.py (lines 376-396):
  the row of one item, before \<^verbatim>\<open>writer.writerow(row)\<close> on line 398. The items of this
  script have no key \<^verbatim>\<open>item_votes\<close>.
\<close>

definition q1_row :: "item \<Rightarrow> string list \<Rightarrow> string list \<Rightarrow> row" where
  "q1_row itm fieldnames members_list =
     (let r = base_row itm fieldnames members_list
      in if passed itm = Some 1 then
           foldl (\<lambda>r member.
                    let attendance_status = dict_get (attendance itm) member ''''
                    in if attendance_status = ''Present''
                       then AList.update member (JStr ''Yes'') r
                       else if attendance_status = ''Absent'' \<or> attendance_status = ''Absent@vote''
                       then AList.update member (JStr ''Absent'') r
                       else AList.update member (JStr ''Yes'') r)
                 r members_list
         else if passed itm = Some 0 then
           foldl (\<lambda>r member. AList.update member (JStr '''') r) r members_list
         else
           foldl (\<lambda>r member. AList.update member (JStr '''') r) r members_list)"

section \<open>The workflow object and its output phase\<close>

text \<open>
  The runtime state of \<^verbatim>\<open>ColumbusExtractionWorkflow\<close> (extract_columbus.py, lines
  80-99). A cache entry holds what the two matter requests returned: \<open>None\<close> for a
  detail request that failed, the empty list for an attachment request that failed. The
  fields of a matter and of an attachment that the workflow reads are texts or null.
\<close>

type_synonym jobject = "(string \<times> string option) list"

record matter_entry =
  details :: "jobject option"
  attachments :: "jobject list"

record workflow =
  year :: int
  quarter :: int
  skip_text :: bool
  votes_only :: bool
  start_date :: string
  end_date :: string
  all_members :: "string set"
  attendance_by_meeting :: "(int \<times> pydict) list"
  meeting_links :: "(int \<times> pydict) list"
  matter_cache :: "(int \<times> matter_entry) list"

text \<open>
  \<^verbatim>\<open>__init__\<close> (lines 72-99); the session and the output paths are outside the model.
\<close>

definition init_workflow :: "int \<Rightarrow> int \<Rightarrow> bool \<Rightarrow> bool \<Rightarrow> py_error + workflow" where
  "init_workflow yr qtr skip votes =
     (case get_quarter_dates yr qtr of
        Inl e \<Rightarrow> Inl e
      | Inr (start, end) \<Rightarrow>
          Inr \<lparr> year = yr, quarter = qtr, skip_text = skip, votes_only = votes,
                start_date = start, end_date = end,
                all_members = {}, attendance_by_meeting = [], meeting_links = [],
                matter_cache = [] \<rparr>)"

text \<open>The row loop of one items file: one written line per item, in the order of the list.\<close>

definition write_rows :: "string list \<Rightarrow> string list \<Rightarrow> item list \<Rightarrow> string list list" where
  "write_rows fieldnames members_list items =
     foldl (\<lambda>written itm. written @ [writerow fieldnames (workflow_row itm fieldnames members_list)])
       [] items"



section \<open>Text preservation\<close>

text \<open>
  \<^verbatim>\<open>load_existing_text\<close> (extract_columbus.py, lines 483-499) reads the votes file
  of an earlier run when it exists. \<open>collect_texts\<close> is the loop
  \<^verbatim>\<open>for row in reader\<close> inside the \<^verbatim>\<open>try\<close>: when the reader raises on a line, the
  \<^verbatim>\<open>except Exception\<close> clause prints a warning and the entries collected from the
  lines before it are returned; that line and every later one are not read. The same
  holds for the header line, which the reader reads first.
\<close>

fun collect_texts :: "string list \<Rightarrow> string list list \<Rightarrow> pydict \<Rightarrow> pydict" where
  "collect_texts fieldnames [] text_map = text_map"
| "collect_texts fieldnames (stored # rest) text_map =
     (case reader_next stored of
        Inl e \<Rightarrow> text_map
      | Inr cells \<Rightarrow>
          if cells = [] then collect_texts fieldnames rest text_map
          else (let r = dict_row fieldnames cells;
                    key = dict_get r ''event_item_id'' '''';
                    text = dict_get r ''Agenda_item_fulltext'' ''''
                in if key \<noteq> [] \<and> text \<noteq> []
                   then collect_texts fieldnames rest (AList.update key text text_map)
                   else collect_texts fieldnames rest text_map))"

definition load_existing_text :: "files \<Rightarrow> pydict" where
  "load_existing_text fs =
     (let text_map = []
      in case votes_file fs of
           None \<Rightarrow> text_map
         | Some f \<Rightarrow>
             (case reader_next (header f) of
                Inl e \<Rightarrow> text_map
              | Inr fieldnames \<Rightarrow> collect_texts fieldnames (lines f) text_map))"

text \<open>
  The text phase of \<^verbatim>\<open>run\<close> (extract_columbus.py, lines 589-603). The scraper drives
  a browser; it is a parameter. With \<^verbatim>\<open>--skip-text\<close> the texts of the earlier votes
  file are copied onto the collected items.
\<close>

definition run_text_phase ::
    "workflow \<Rightarrow> (item list \<Rightarrow> item list) \<Rightarrow> files \<Rightarrow> item list \<Rightarrow> item list" where
  "run_text_phase self scrape_full_text fs all_items =
     (if \<not> skip_text self then scrape_full_text all_items
      else (let text_map = load_existing_text fs
            in if text_map \<noteq> [] then
                 map (\<lambda>itm.
                        let eid = py_str_int (event_item_id itm)
                        in case map_of text_map eid of
                             Some text \<Rightarrow> itm\<lparr>Agenda_item_fulltext := text\<rparr>
                           | None \<Rightarrow> itm)
                   all_items
               else all_items))"

text \<open>A sample workflow object for the worked examples: the first quarter of 2023.\<close>

definition sample_workflow :: "bool \<Rightarrow> bool \<Rightarrow> string set \<Rightarrow> workflow" where
  "sample_workflow skip votes members =
     \<lparr> year = 2023, quarter = 1, skip_text = skip, votes_only = votes,
       start_date = ''2023-01-01'', end_date = ''2023-04-01'',
       all_members = members, attendance_by_meeting = [], meeting_links = [],
       matter_cache = [] \<rparr>"

section \<open>Matter enrichment\<close>

text \<open>
  The records API as the enricher sees it: what a GET of
  \<^verbatim>\<open>/matters/{id}\<close> and of \<^verbatim>\<open>/matters/{id}/attachments\<close> answers, \<open>None\<close> when
  \<^verbatim>\<open>_api_get\<close> returns \<^verbatim>\<open>None\<close> (a status other than 200, or an exception). Every
  request made is appended to a log.
\<close>

datatype request = GetMatter int | GetMatterAttachments int

record service =
  matter_response :: "int \<Rightarrow> jobject option"
  attachments_response :: "int \<Rightarrow> jobject list option"

text \<open>\<^verbatim>\<open>fetch_matter_details\<close> and \<^verbatim>\<open>fetch_matter_attachments\<close> (lines 167-175).\<close>

definition fetch_matter_details ::
    "service \<Rightarrow> int \<Rightarrow> request list \<Rightarrow> jobject option \<times> request list" where
  "fetch_matter_details svc mid log = (matter_response svc mid, log @ [GetMatter mid])"

definition fetch_matter_attachments ::
    "service \<Rightarrow> int \<Rightarrow> request list \<Rightarrow> jobject list \<times> request list" where
  "fetch_matter_attachments svc mid log =
     ((case attachments_response svc mid of None \<Rightarrow> [] | Some atts \<Rightarrow> atts),
      log @ [GetMatterAttachments mid])"

text \<open>\<^verbatim>\<open>d.get(k, '') or ''\<close> on an object whose values are texts or null.\<close>

definition get_or_empty :: "jobject \<Rightarrow> string \<Rightarrow> string" where
  "get_or_empty d k = (case map_of d k of Some (Some s) \<Rightarrow> s | _ \<Rightarrow> [])"

text \<open>\<^verbatim>\<open>sep.join(xs)\<close>\<close>

fun join :: "string \<Rightarrow> string list \<Rightarrow> string" where
  "join sep [] = []"
| "join sep [x] = x"
| "join sep (x # y # ys) = x @ sep @ join sep (y # ys)"

text \<open>
  The first loop of \<^verbatim>\<open>enrich_matter_data\<close> (lines 295-299): \<^verbatim>\<open>if mid\<close> holds for
  an identifier that is neither \<^verbatim>\<open>None\<close> nor 0.
\<close>

definition unique_matter_ids :: "item list \<Rightarrow> int set" where
  "unique_matter_ids all_items =
     foldl (\<lambda>ids itm.
              case matter_id itm of
                None \<Rightarrow> ids
              | Some mid \<Rightarrow> if mid \<noteq> 0 then insert mid ids else ids)
       {} all_items"

text \<open>The body of the fetch loop (lines 302-309), on the cache and the request log.\<close>

definition fetch_and_cache ::
    "service \<Rightarrow> (int \<times> matter_entry) list \<times> request list \<Rightarrow> int
       \<Rightarrow> (int \<times> matter_entry) list \<times> request list" where
  "fetch_and_cache svc state mid =
     (case state of
        (cache, log) \<Rightarrow>
          (case fetch_matter_details svc mid log of
             (fetched_details, log) \<Rightarrow>
               (case fetch_matter_attachments svc mid log of
                  (fetched_attachments, log) \<Rightarrow>
                    (AList.update mid
                       \<lparr>details = fetched_details, attachments = fetched_attachments\<rparr> cache,
                     log))))"

text \<open>
  The body of the populate loop (lines 312-333). \<^verbatim>\<open>if details\<close> fails for
  \<^verbatim>\<open>None\<close> and for an object without entries; \<^verbatim>\<open>x[:10]\<close> keeps the first ten
  characters.
\<close>

definition populate_item :: "(int \<times> matter_entry) list \<Rightarrow> item \<Rightarrow> item" where
  "populate_item cache itm =
     (case matter_id itm of
        None \<Rightarrow> itm
      | Some mid \<Rightarrow>
          if mid \<noteq> 0 then
            (case map_of cache mid of
               None \<Rightarrow> itm
             | Some entry \<Rightarrow>
                 (let itm =
                        (case details entry of
                           None \<Rightarrow> itm
                         | Some d \<Rightarrow>
                             if d \<noteq> [] then
                               itm\<lparr> matter_title := get_or_empty d ''MatterTitle'',
                                    matter_type_name := get_or_empty d ''MatterTypeName'',
                                    matter_status_name := get_or_empty d ''MatterStatusName'',
                                    matter_intro_date := take 10 (get_or_empty d ''MatterIntroDate''),
                                    matter_passed_date := take 10 (get_or_empty d ''MatterPassedDate''),
                                    matter_enactment_date :=
                                      take 10 (get_or_empty d ''MatterEnactmentDate''),
                                    matter_enactment_number :=
                                      get_or_empty d ''MatterEnactmentNumber'',
                                    matter_requester := get_or_empty d ''MatterRequester'',
                                    matter_body_name := get_or_empty d ''MatterBodyName'' \<rparr>
                             else itm);
                      atts = attachments entry
                  in if atts \<noteq> [] then
                       (let links = map (\<lambda>a. get_or_empty a ''MatterAttachmentHyperlink'')
                                      (filter (\<lambda>a. get_or_empty a ''MatterAttachmentHyperlink'' \<noteq> [])
                                         atts)
                        in itm\<lparr>attachment_links := join ''|'' links\<rparr>)
                     else itm))
          else itm)"

text \<open>
  The two steps of the populate loop's body, for one cache entry: the detail fields
  (lines 315-328) and the attachment links (lines 330-333).
\<close>

definition apply_details :: "jobject option \<Rightarrow> item \<Rightarrow> item" where
  "apply_details fetched itm =
     (case fetched of
        None \<Rightarrow> itm
      | Some d \<Rightarrow>
          if d \<noteq> [] then
            itm\<lparr> matter_title := get_or_empty d ''MatterTitle'',
                 matter_type_name := get_or_empty d ''MatterTypeName'',
                 matter_status_name := get_or_empty d ''MatterStatusName'',
                 matter_intro_date := take 10 (get_or_empty d ''MatterIntroDate''),
                 matter_passed_date := take 10 (get_or_empty d ''MatterPassedDate''),
                 matter_enactment_date := take 10 (get_or_empty d ''MatterEnactmentDate''),
                 matter_enactment_number := get_or_empty d ''MatterEnactmentNumber'',
                 matter_requester := get_or_empty d ''MatterRequester'',
                 matter_body_name := get_or_empty d ''MatterBodyName'' \<rparr>
          else itm)"

definition apply_attachments :: "jobject list \<Rightarrow> item \<Rightarrow> item" where
  "apply_attachments atts itm =
     (if atts \<noteq> [] then
        itm\<lparr>attachment_links :=
              join ''|'' (map (\<lambda>a. get_or_empty a ''MatterAttachmentHyperlink'')
                           (filter (\<lambda>a. get_or_empty a ''MatterAttachmentHyperlink'' \<noteq> []) atts))\<rparr>
      else itm)"

text \<open>
  \<^verbatim>\<open>enrich_matter_data(self, all_items)\<close> (extract_columbus.py, lines 292-335): the
  workflow with its cache, the items and the request log after the call.
\<close>

definition enrich_matter_data ::
    "service \<Rightarrow> workflow \<Rightarrow> item list \<Rightarrow> request list \<Rightarrow> workflow \<times> item list \<times> request list" where
  "enrich_matter_data svc self all_items log =
     (let ids = unique_matter_ids all_items
      in case foldl (fetch_and_cache svc) (matter_cache self, log) (sorted_list_of_set ids) of
           (cache, log) \<Rightarrow>
             (self\<lparr>matter_cache := cache\<rparr>, map (populate_item cache) all_items, log))"

text \<open>Sample services for the worked examples: every matter has the given title.\<close>

definition sample_service :: "string \<Rightarrow> service" where
  "sample_service matter_title_text =
     \<lparr> matter_response = (\<lambda>mid. Some [(''MatterTitle'', Some matter_title_text)]),
       attachments_response = (\<lambda>mid. Some []) \<rparr>"

text \<open>
  Two sample runs of the enricher over one item that refers to matter 5: the second starts
  from the workflow, the items and the log the first one left, against a service that now
  answers with another title.
\<close>

definition sample_first_run :: "workflow \<times> item list \<times> request list" where
  "sample_first_run =
     enrich_matter_data (sample_service ''A'') (sample_workflow False False {})
       [sample_item 1 10 (Some 1) (Some 5) [] []] []"

definition sample_second_run :: "workflow \<times> item list \<times> request list" where
  "sample_second_run =
     enrich_matter_data (sample_service ''B'') (fst sample_first_run)
       (fst (snd sample_first_run)) (snd (snd sample_first_run))"

section \<open>Vote assignment on the object store\<close>

text \<open>
  Python passes objects by reference: \<^verbatim>\<open>_assign_votes\<close> receives the workflow, the
  item and the member list as references to objects that its caller and the other items
  share, and could modify them in place. To state what it leaves untouched, the objects
  are kept in a store, a reference being a position in it. \<^verbatim>\<open>votes = {}\<close> allocates a
  new dictionary at the end of the store and \<^verbatim>\<open>votes[member] = v\<close> is a store to that
  object. The method reads \<^verbatim>\<open>item\<close>, \<^verbatim>\<open>item['attendance']\<close>,
  \<^verbatim>\<open>self.VOTE_MAP\<close> and \<^verbatim>\<open>members_list\<close> and stores to none of them, so an item is
  kept with its dictionaries inside. An argument of another kind is \<open>TypeError\<close>.
\<close>

datatype pyobj = ODict pydict | OItem item | OList "string list" | OWorkflow workflow

type_synonym store = "pyobj list"

type_synonym ref = nat

definition deref :: "store \<Rightarrow> ref \<Rightarrow> pyobj option" where
  "deref st r = (if r < length st then Some (st ! r) else None)"

text \<open>\<^verbatim>\<open>d[k] = v\<close> for the dictionary object at \<open>r\<close>.\<close>

definition dict_store :: "store \<Rightarrow> ref \<Rightarrow> string \<Rightarrow> string \<Rightarrow> store" where
  "dict_store st r k v =
     (case deref st r of
        Some (ODict d) \<Rightarrow> st[r := ODict (AList.update k v d)]
      | _ \<Rightarrow> st)"

text \<open>
  \<^verbatim>\<open>_assign_votes(self, item, members_list)\<close> (extract_columbus.py, lines 455-481) on
  the store: the reference it returns and the store it leaves.
\<close>

definition assign_votes_store :: "store \<Rightarrow> ref \<Rightarrow> ref \<Rightarrow> ref \<Rightarrow> py_error + (ref \<times> store)" where
  "assign_votes_store st self item_ref members_ref =
     (case (deref st self, deref st item_ref, deref st members_ref) of
        (Some (OWorkflow w), Some (OItem itm), Some (OList members_list)) \<Rightarrow>
          (let votes = length st;
               st = st @ [ODict []];
               item_votes = item_votes itm
           in if item_votes \<noteq> [] then
                Inr (votes,
                  foldl (\<lambda>st member.
                           case map_of item_votes member of
                             Some recorded \<Rightarrow>
                               dict_store st votes member (dict_get VOTE_MAP recorded recorded)
                           | None \<Rightarrow>
                               (let att = dict_get (attendance itm) member ''''
                                in if att = ''Absent'' \<or> att = ''Absent@vote''
                                   then dict_store st votes member ''Absent''
                                   else dict_store st votes member ''''))
                        st members_list)
              else if passed itm = Some 1 then
                Inr (votes,
                  foldl (\<lambda>st member.
                           let att = dict_get (attendance itm) member ''''
                           in if att = ''Absent'' \<or> att = ''Absent@vote''
                              then dict_store st votes member ''Absent''
                              else dict_store st votes member ''Yes'')
                        st members_list)
              else
                Inr (votes, foldl (\<lambda>st member. dict_store st votes member '''') st members_list))
      | _ \<Rightarrow> Inl TypeError)"

section \<open>Loops that store one value per member\<close>

lemma foldl_update_keys:
  assumes "\<And>vs m. body vs m = AList.update m (f m) vs"
  shows "fst ` set (foldl body vs0 ms) = fst ` set vs0 \<union> set ms"
  using assms
proof (induction ms arbitrary: vs0)
  case Nil
  show ?case by simp
next
  case (Cons m ms)
  have "fst ` set (foldl body (AList.update m (f m) vs0) ms)
          = fst ` set (AList.update m (f m) vs0) \<union> set ms"
    using Cons.IH [OF Cons.prems] .
  also have "fst ` set (AList.update m (f m) vs0) = insert m (fst ` set vs0)"
    using dom_update [of m "f m" vs0] by simp
  finally have "fst ` set (foldl body (AList.update m (f m) vs0) ms)
                  = fst ` set vs0 \<union> set (m # ms)"
    by simp
  moreover have "foldl body vs0 (m # ms) = foldl body (AList.update m (f m) vs0) ms"
    by (simp only: foldl_Cons Cons.prems [of vs0 m])
  ultimately show ?case
    by (simp only:)
qed

lemma foldl_update_distinct:
  assumes "\<And>vs m. body vs m = AList.update m (f m) vs"
    and "distinct (map fst vs0)"
  shows "distinct (map fst (foldl body vs0 ms))"
  using assms
proof (induction ms arbitrary: vs0)
  case Nil
  then show ?case by simp
next
  case (Cons m ms)
  have "distinct (map fst (AList.update m (f m) vs0))"
    using Cons.prems(2) by (rule distinct_update)
  then have "distinct (map fst (foldl body (AList.update m (f m) vs0) ms))"
    using Cons.IH [of "AList.update m (f m) vs0"] Cons.prems(1) by blast
  moreover have "foldl body vs0 (m # ms) = foldl body (AList.update m (f m) vs0) ms"
    by (simp only: foldl_Cons Cons.prems(1) [of vs0 m])
  ultimately show ?case
    by (simp only:)
qed

lemma foldl_update_lookup:
  assumes "\<And>vs m. body vs m = AList.update m (f m) vs"
  shows "map_of (foldl body vs0 ms) k = (if k \<in> set ms then Some (f k) else map_of vs0 k)"
  using assms
proof (induction ms arbitrary: vs0)
  case Nil
  show ?case by simp
next
  case (Cons m ms)
  have "map_of (foldl body (AList.update m (f m) vs0) ms) k
          = (if k \<in> set ms then Some (f k) else map_of (AList.update m (f m) vs0) k)"
    using Cons.IH [OF Cons.prems] .
  then have "map_of (foldl body (AList.update m (f m) vs0) ms) k
               = (if k \<in> set (m # ms) then Some (f k) else map_of vs0 k)"
    by (simp add: update_conv')
  moreover have "foldl body vs0 (m # ms) = foldl body (AList.update m (f m) vs0) ms"
    by (simp only: foldl_Cons Cons.prems [of vs0 m])
  ultimately show ?case
    by (simp only:)
qed

lemma assign_votes_as_updates:
  "assign_votes itm ms = foldl (\<lambda>votes member. AList.update member (member_vote itm member) votes) [] ms"
  unfolding assign_votes_def Let_def member_vote_def recorded_or_attendance_def consent_vote_def
  by (auto intro!: foldl_cong split: option.splits)

lemma assign_votes_lookup:
  "map_of (assign_votes itm ms) k = (if k \<in> set ms then Some (member_vote itm k) else None)"
  unfolding assign_votes_as_updates
  by (subst foldl_update_lookup [where f = "member_vote itm"]) simp_all

lemma assign_votes_keys: "fst ` set (assign_votes itm ms) = set ms"
  unfolding assign_votes_as_updates
  by (subst foldl_update_keys [where f = "member_vote itm"]) simp_all

lemma assign_votes_distinct: "distinct (map fst (assign_votes itm ms))"
  unfolding assign_votes_as_updates
  by (rule foldl_update_distinct [where f = "member_vote itm"]) simp_all

lemma VOTE_MAP_get:
  "dict_get VOTE_MAP v v =
     (if v = ''Affirmative'' then ''Yes''
      else if v = ''Negative'' then ''No''
      else if v = ''Abstained'' then ''Abstain''
      else if v = ''Absent@vote'' then ''Absent''
      else if v = ''Absent'' then ''Absent''
      else if v = ''Present'' then ''Present''
      else v)"
  by (simp add: dict_get_def VOTE_MAP_def)

section \<open>Properties of vote assignment\<close>

text \<open>
  C1. When the item has recorded per-item votes and a member of the canonical list is a
  key of them, the value \<open>assign_votes\<close> computes for that member is the \<open>VOTE_MAP\<close>
  translation of the recorded value (the recorded value itself when \<open>VOTE_MAP\<close> has no
  entry for it), whatever attendance dictionary \<open>att\<close> the item carries.
\<close>

theorem assign_votes_recorded_vote_precedence:
  assumes "item_votes itm \<noteq> []"
    and "member \<in> set members_list"
    and "map_of (item_votes itm) member = Some recorded"
  shows "map_of (assign_votes (itm\<lparr>attendance := att\<rparr>) members_list) member
           = Some (dict_get VOTE_MAP recorded recorded)"
  using assms
  by (simp add: assign_votes_lookup member_vote_def recorded_or_attendance_def)

theorem assign_votes_recorded_vote_precedence_witness:
  "item_votes (sample_item 1 10 (Some 1) None [] [(''Ann'', ''Negative'')]) \<noteq> []
   \<and> ''Ann'' \<in> set [''Ann'', ''Bob'']
   \<and> map_of (item_votes (sample_item 1 10 (Some 1) None [] [(''Ann'', ''Negative'')])) ''Ann''
       = Some ''Negative''
   \<and> map_of (assign_votes
               ((sample_item 1 10 (Some 1) None [] [(''Ann'', ''Negative'')])
                  \<lparr>attendance := [(''Ann'', ''Absent'')]\<rparr>)
               [''Ann'', ''Bob'']) ''Ann''
       = Some ''No''"
  using assign_votes_recorded_vote_precedence
          [of "sample_item 1 10 (Some 1) None [] [(''Ann'', ''Negative'')]"
              "''Ann''" "[''Ann'', ''Bob'']" "''Negative''" "[(''Ann'', ''Absent'')]"]
  by (simp add: sample_item_def VOTE_MAP_get)

text \<open>
  C2. When the item has no recorded per-item votes: if its passed flag is 1, every member
  of the canonical list gets \<open>Yes\<close>, except that a member whose attendance status is
  \<open>Absent\<close> or \<open>Absent@vote\<close> gets \<open>Absent\<close>; with any other passed flag (0, or none)
  every member gets the empty value.
\<close>

theorem assign_votes_consent_or_blank:
  assumes "item_votes itm = []"
    and "member \<in> set members_list"
  shows "map_of (assign_votes itm members_list) member =
           Some (if passed itm = Some 1
                 then (if dict_get (attendance itm) member '''' \<in> {''Absent'', ''Absent@vote''}
                       then ''Absent'' else ''Yes'')
                 else '''')"
  using assms
  by (simp add: assign_votes_lookup member_vote_def consent_vote_def)

theorem assign_votes_consent_or_blank_witness:
  "item_votes (sample_item 1 10 (Some 1) None [(''Ann'', ''Absent@vote''), (''Bob'', ''Present'')] []) = []
   \<and> ''Ann'' \<in> set [''Ann'', ''Bob'']
   \<and> map_of (assign_votes
               (sample_item 1 10 (Some 1) None [(''Ann'', ''Absent@vote''), (''Bob'', ''Present'')] [])
               [''Ann'', ''Bob'']) ''Ann''
       = Some ''Absent''"
  using assign_votes_consent_or_blank
          [of "sample_item 1 10 (Some 1) None [(''Ann'', ''Absent@vote''), (''Bob'', ''Present'')] []"
              "''Ann''" "[''Ann'', ''Bob'']"]
  by (simp add: sample_item_def dict_get_def)

text \<open>
  C3. The keys of the dictionary \<open>assign_votes\<close> returns are exactly the members of the
  given list, each key once, for every item: whatever its per-item votes and its
  attendance dictionary contain.
\<close>

theorem assign_votes_keys_are_members:
  "fst ` set (assign_votes itm members_list) = set members_list
   \<and> dom (map_of (assign_votes itm members_list)) = set members_list
   \<and> distinct (map fst (assign_votes itm members_list))"
  by (simp add: assign_votes_keys assign_votes_distinct dom_map_of_conv_image_fst)

text \<open>
  C5. The translation \<open>assign_votes\<close> applies to a recorded per-item vote: Affirmative
  gives Yes, Negative gives No, Abstained gives Abstain, Absent and Absent@vote give
  Absent, Present gives Present, and every other string is the member's vote unchanged.
\<close>

theorem assign_votes_vocabulary:
  assumes "map_of (item_votes itm) member = Some recorded"
    and "member \<in> set members_list"
  shows "map_of (assign_votes itm members_list) member =
           Some (if recorded = ''Affirmative'' then ''Yes''
                 else if recorded = ''Negative'' then ''No''
                 else if recorded = ''Abstained'' then ''Abstain''
                 else if recorded = ''Absent'' then ''Absent''
                 else if recorded = ''Absent@vote'' then ''Absent''
                 else if recorded = ''Present'' then ''Present''
                 else recorded)"
proof -
  from assms(1) have "item_votes itm \<noteq> []"
    by auto
  with assms have "map_of (assign_votes itm members_list) member
                     = Some (dict_get VOTE_MAP recorded recorded)"
    by (simp add: assign_votes_lookup member_vote_def recorded_or_attendance_def)
  then show ?thesis
    by (simp add: VOTE_MAP_get)
qed

theorem assign_votes_vocabulary_witness:
  "map_of (item_votes (sample_item 1 10 (Some 1) None [] [(''Ann'', ''Recused'')])) ''Ann''
     = Some ''Recused''
   \<and> ''Ann'' \<in> set [''Ann'']
   \<and> map_of (assign_votes (sample_item 1 10 (Some 1) None [] [(''Ann'', ''Recused'')]) [''Ann''])
        ''Ann'' = Some ''Recused''"
  using assign_votes_vocabulary
          [of "sample_item 1 10 (Some 1) None [] [(''Ann'', ''Recused'')]"
              "''Ann''" "''Recused''" "[''Ann'']"]
  by (simp add: sample_item_def)

section \<open>Decimal text and dates\<close>

lemma digit_of_digit_char: "d < 10 \<Longrightarrow> digit_of (digit_char d) = Some d"
proof -
  assume "d < 10"
  then have "d \<in> {0, 1, 2, 3, 4, 5, 6, 7, 8, 9}"
    by auto
  then show ?thesis
    by (auto simp: digit_of_def digit_values_def digit_char_def)
qed

lemma digit_char_not_minus: "d < 10 \<Longrightarrow> digit_char d \<noteq> CHR ''-''"
proof -
  assume "d < 10"
  then have "d \<in> {0, 1, 2, 3, 4, 5, 6, 7, 8, 9}"
    by auto
  then show ?thesis
    by (auto simp: digit_char_def)
qed

lemma nat_of_digits_append:
  "nat_of_digits acc (xs @ ys) =
     (case nat_of_digits acc xs of None \<Rightarrow> None | Some a \<Rightarrow> nat_of_digits a ys)"
  by (induction xs arbitrary: acc) (auto split: option.splits)

lemma nat_of_digits_py_str_nat: "nat_of_digits 0 (py_str_nat n) = Some n"
proof (induction n rule: py_str_nat.induct)
  case (1 n)
  show ?case
  proof (cases "n < 10")
    case True
    then show ?thesis
      by (subst py_str_nat.simps) (simp add: digit_of_digit_char)
  next
    case False
    then have "nat_of_digits 0 (py_str_nat (n div 10)) = Some (n div 10)"
      using "1.IH" by simp
    moreover have "py_str_nat n = py_str_nat (n div 10) @ [digit_char (n mod 10)]"
      using False by (subst py_str_nat.simps) simp
    ultimately show ?thesis
      by (simp add: nat_of_digits_append digit_of_digit_char)
  qed
qed

lemma py_str_nat_hd: "\<exists>c cs. py_str_nat n = c # cs \<and> c \<noteq> CHR ''-''"
proof (induction n rule: py_str_nat.induct)
  case (1 n)
  show ?case
  proof (cases "n < 10")
    case True
    then show ?thesis
      by (subst py_str_nat.simps) (simp add: digit_char_not_minus)
  next
    case False
    then obtain c cs where "py_str_nat (n div 10) = c # cs" "c \<noteq> CHR ''-''"
      using "1.IH" by auto
    moreover have "py_str_nat n = py_str_nat (n div 10) @ [digit_char (n mod 10)]"
      using False by (subst py_str_nat.simps) simp
    ultimately show ?thesis
      by simp
  qed
qed

lemma py_int_py_str_int: "py_int (py_str_int i) = Some i"
proof (cases "i < 0")
  case True
  obtain c cs where "py_str_nat (nat (- i)) = c # cs"
    using py_str_nat_hd by blast
  then have "py_str_nat (nat (- i)) \<noteq> []"
    by simp
  with True show ?thesis
    by (simp add: py_int_def py_str_int_def nat_of_digits_py_str_nat)
next
  case False
  obtain c cs where s: "py_str_nat (nat i) = c # cs" "c \<noteq> CHR ''-''"
    using py_str_nat_hd by blast
  have "nat_of_digits 0 (c # cs) = Some (nat i)"
    using nat_of_digits_py_str_nat [of "nat i"] s(1) by simp
  with False s show ?thesis
    by (simp add: py_int_def py_str_int_def del: nat_of_digits.simps)
qed

lemma parse_date_rendered:
  assumes "two_digits m1 m2 = Some m" and "two_digits d1 d2 = Some d"
  shows "parse_date (py_str_int y @ ''-'' @ [m1, m2, CHR ''-'', d1, d2]) = Some (y, m, d)"
  using assms by (simp add: parse_date_def py_int_py_str_int)

lemma get_quarter_dates_values:
  "get_quarter_dates y 1 = Inr (py_str_int y @ ''-01-01'', py_str_int y @ ''-04-01'')"
  "get_quarter_dates y 2 = Inr (py_str_int y @ ''-04-01'', py_str_int y @ ''-07-01'')"
  "get_quarter_dates y 3 = Inr (py_str_int y @ ''-07-01'', py_str_int y @ ''-10-01'')"
  "get_quarter_dates y 4 = Inr (py_str_int y @ ''-10-01'', py_str_int (y + 1) @ ''-01-01'')"
  by (simp_all add: get_quarter_dates_def quarters_def)

lemma parse_quarter_boundaries:
  "parse_date (py_str_int y @ ''-01-01'') = Some (y, 1, 1)"
  "parse_date (py_str_int y @ ''-04-01'') = Some (y, 4, 1)"
  "parse_date (py_str_int y @ ''-07-01'') = Some (y, 7, 1)"
  "parse_date (py_str_int y @ ''-10-01'') = Some (y, 10, 1)"
  using parse_date_rendered [of "CHR ''0''" "CHR ''1''" 1 "CHR ''0''" "CHR ''1''" 1 y]
    parse_date_rendered [of "CHR ''0''" "CHR ''4''" 4 "CHR ''0''" "CHR ''1''" 1 y]
    parse_date_rendered [of "CHR ''0''" "CHR ''7''" 7 "CHR ''0''" "CHR ''1''" 1 y]
    parse_date_rendered [of "CHR ''1''" "CHR ''0''" 10 "CHR ''0''" "CHR ''1''" 1 y]
  by (simp_all add: two_digits_def digit_of_def digit_values_def)

text \<open>
  C4. For every year \<open>y\<close> and every quarter \<open>q\<close> from 1 to 4,
  \<open>get_quarter_dates y q\<close> returns a pair of texts that denote dates: the start is the
  first day of month \<open>3q - 2\<close> (January, April, July, October) of \<open>y\<close>, the end is
  the first day of the next quarter (1 January of \<open>y + 1\<close> for quarter 4), the end is
  strictly later than the start, and the end is the start that \<open>get_quarter_dates\<close>
  returns for the following quarter (quarter 1 of \<open>y + 1\<close> after quarter 4).
\<close>

theorem get_quarter_dates_intervals:
  assumes "q \<in> {1, 2, 3, 4}"
  shows "\<exists>start end start_date end_date next_end.
           get_quarter_dates y q = Inr (start, end)
           \<and> parse_date start = Some start_date
           \<and> parse_date end = Some end_date
           \<and> start_date = (y, nat (3 * q - 2), 1)
           \<and> end_date = (if q = 4 then (y + 1, 1, 1) else (y, nat (3 * q + 1), 1))
           \<and> date_less start_date end_date
           \<and> get_quarter_dates (if q = 4 then y + 1 else y) (if q = 4 then 1 else q + 1)
                = Inr (end, next_end)"
proof -
  from assms consider "q = 1" | "q = 2" | "q = 3" | "q = 4"
    by auto
  then show ?thesis
  proof cases
    case 1
    then show ?thesis
      by (simp add: get_quarter_dates_values parse_quarter_boundaries date_less_def)
  next
    case 2
    then show ?thesis
      by (simp add: get_quarter_dates_values parse_quarter_boundaries date_less_def)
  next
    case 3
    then show ?thesis
      by (simp add: get_quarter_dates_values parse_quarter_boundaries date_less_def)
  next
    case 4
    then show ?thesis
      by (simp add: get_quarter_dates_values parse_quarter_boundaries date_less_def)
  qed
qed

theorem get_quarter_dates_intervals_witness:
  "(4::int) \<in> {1, 2, 3, 4}
   \<and> get_quarter_dates 2023 4 = Inr (''2023-10-01'', ''2024-01-01'')
   \<and> parse_date ''2023-10-01'' = Some (2023, 10, 1)
   \<and> parse_date ''2024-01-01'' = Some (2024, 1, 1)
   \<and> date_less (2023, 10, 1) (2024, 1, 1)
   \<and> get_quarter_dates 2024 1 = Inr (''2024-01-01'', ''2024-04-01'')"
  using get_quarter_dates_intervals [of 4 2023]
  by (simp add: get_quarter_dates_def quarters_def py_str_int_def py_str_nat.simps digit_char_def
        parse_date_def py_int_def digit_of_def digit_values_def two_digits_def date_less_def)

section \<open>Rows of the two scripts\<close>

lemma row_update_lookup:
  "distinct (map fst votes) \<Longrightarrow>
   map_of (row_update r votes) k =
     (case map_of votes k of Some v \<Rightarrow> Some (JStr v) | None \<Rightarrow> map_of r k)"
proof (induction votes arbitrary: r)
  case Nil
  show ?case by (simp add: row_update_def)
next
  case (Cons p votes)
  obtain m v where p: "p = (m, v)"
    by (cases p)
  have step: "row_update r (p # votes) = row_update (AList.update m (JStr v) r) votes"
    by (simp add: row_update_def p)
  have "m \<notin> fst ` set votes" and "distinct (map fst votes)"
    using Cons.prems by (simp_all add: p)
  then have "map_of votes m = None"
    by (simp add: map_of_eq_None_iff)
  moreover have "map_of (row_update (AList.update m (JStr v) r) votes) k =
      (case map_of votes k of Some v \<Rightarrow> Some (JStr v)
       | None \<Rightarrow> map_of (AList.update m (JStr v) r) k)"
    using Cons.IH [OF \<open>distinct (map fst votes)\<close>] .
  ultimately show ?case
    unfolding step by (auto simp: p update_conv' split: option.splits)
qed

lemma workflow_row_lookup:
  "map_of (workflow_row itm fieldnames ms) k =
     (if k \<in> set ms then Some (JStr (member_vote itm k))
      else map_of (base_row itm fieldnames ms) k)"
  by (simp add: workflow_row_def row_update_lookup assign_votes_distinct assign_votes_lookup)

lemma q1_row_as_updates:
  "q1_row itm fieldnames ms =
     foldl (\<lambda>r member. AList.update member
                (JStr (if passed itm = Some 1 then consent_vote itm member else '''')) r)
       (base_row itm fieldnames ms) ms"
  unfolding q1_row_def Let_def consent_vote_def
  by (auto intro!: foldl_cong)

lemma q1_row_lookup:
  "map_of (q1_row itm fieldnames ms) k =
     (if k \<in> set ms
      then Some (JStr (if passed itm = Some 1 then consent_vote itm k else ''''))
      else map_of (base_row itm fieldnames ms) k)"
  unfolding q1_row_as_updates
  by (subst foldl_update_lookup
        [where f = "\<lambda>member. JStr (if passed itm = Some 1 then consent_vote itm member else '''')"])
     simp_all

lemma writerow_cong: "map_of r1 = map_of r2 \<Longrightarrow> writerow fieldnames r1 = writerow fieldnames r2"
  by (simp add: writerow_def dict_get_def)

text \<open>
  C6. For every item without recorded per-item votes and every attendance dictionary,
  the row the single-quarter script builds holds, for each member of the list, the value
  \<open>assign_votes\<close> computes for that member; the two rows are the same dictionary and
  are written as the same line.
\<close>

theorem q1_row_agrees_with_assign_votes:
  assumes "item_votes itm = []"
  shows "(\<forall>member \<in> set members_list.
            map_of (q1_row itm fieldnames members_list) member
              = map_option JStr (map_of (assign_votes itm members_list) member))
         \<and> map_of (q1_row itm fieldnames members_list)
              = map_of (workflow_row itm fieldnames members_list)
         \<and> writerow fieldnames (q1_row itm fieldnames members_list)
              = writerow fieldnames (workflow_row itm fieldnames members_list)"
proof -
  have votes: "member_vote itm k = (if passed itm = Some 1 then consent_vote itm k else '''')" for k
    using assms by (simp add: member_vote_def)
  have same: "map_of (q1_row itm fieldnames members_list)
                = map_of (workflow_row itm fieldnames members_list)"
    by (rule ext) (simp add: q1_row_lookup workflow_row_lookup votes)
  have "map_of (q1_row itm fieldnames members_list) member
          = map_option JStr (map_of (assign_votes itm members_list) member)"
    if "member \<in> set members_list" for member
    using that by (simp add: q1_row_lookup assign_votes_lookup votes)
  moreover have "writerow fieldnames (q1_row itm fieldnames members_list)
                   = writerow fieldnames (workflow_row itm fieldnames members_list)"
    using same by (rule writerow_cong)
  ultimately show ?thesis
    using same by blast
qed

theorem q1_row_agrees_with_assign_votes_witness:
  "item_votes (sample_item 1 10 (Some 1) None [(''Ann'', ''Excused''), (''Bob'', ''Absent'')] []) = []
   \<and> map_of (q1_row (sample_item 1 10 (Some 1) None [(''Ann'', ''Excused''), (''Bob'', ''Absent'')] [])
               (base_fieldnames @ [''Ann'', ''Bob'', ''Cy'']) [''Ann'', ''Bob'', ''Cy'']) ''Ann''
       = Some (JStr ''Yes'')
   \<and> map_of (assign_votes (sample_item 1 10 (Some 1) None [(''Ann'', ''Excused''), (''Bob'', ''Absent'')] [])
               [''Ann'', ''Bob'', ''Cy'']) ''Ann''
       = Some ''Yes''
   \<and> map_of (q1_row (sample_item 1 10 (Some 1) None [(''Ann'', ''Excused''), (''Bob'', ''Absent'')] [])
               (base_fieldnames @ [''Ann'', ''Bob'', ''Cy'']) [''Ann'', ''Bob'', ''Cy'']) ''Cy''
       = Some (JStr ''Yes'')"
  using q1_row_agrees_with_assign_votes
          [of "sample_item 1 10 (Some 1) None [(''Ann'', ''Excused''), (''Bob'', ''Absent'')] []"
              "[''Ann'', ''Bob'', ''Cy'']" "base_fieldnames @ [''Ann'', ''Bob'', ''Cy'']"]
  by (simp add: sample_item_def q1_row_lookup workflow_row_lookup assign_votes_lookup member_vote_def consent_vote_def
        dict_get_def)

section \<open>The output files\<close>

lemma foldl_snoc_map: "foldl (\<lambda>written x. written @ [g x]) acc xs = acc @ map g xs"
  by (induction xs arbitrary: acc) simp_all

lemma write_rows_map:
  "write_rows fieldnames ms items = map (\<lambda>itm. writerow fieldnames (workflow_row itm fieldnames ms)) items"
  by (simp add: write_rows_def foldl_snoc_map)



section \<open>Carrying texts over from an earlier run\<close>

text \<open>
  What the text phase does with a votes file that can be read to its end: the full text
  read for an identifier, after the translation of line breaks, is copied onto every
  collected item of that identifier.
\<close>

lemma universal_newlines_plain:
  "carriage_return \<notin> set s \<Longrightarrow> universal_newlines s = s"
  by (induction s rule: universal_newlines.induct) auto

lemma py_str_int_not_empty: "py_str_int i \<noteq> []"
  using py_str_nat_hd [of "nat i"] py_str_nat_hd [of "nat (- i)"]
  by (auto simp: py_str_int_def)

lemma reader_next_readable:
  "\<not> list_ex (\<lambda>cell. field_size_limit < length cell) (map universal_newlines stored) \<Longrightarrow>
   reader_next stored = Inr (map universal_newlines stored)"
  by (simp add: reader_next_def)

lemma collect_texts_readable:
  assumes "\<forall>stored \<in> set ls.
             \<not> list_ex (\<lambda>cell. field_size_limit < length cell) (map universal_newlines stored)"
  shows "collect_texts fieldnames ls text_map
           = foldl (\<lambda>text_map r.
                      let key = dict_get r ''event_item_id'' '''';
                          text = dict_get r ''Agenda_item_fulltext'' ''''
                      in if key \<noteq> [] \<and> text \<noteq> [] then AList.update key text text_map
                         else text_map)
               text_map
               (map (dict_row fieldnames)
                  (filter (\<lambda>cells. cells \<noteq> []) (map (map universal_newlines) ls)))"
  using assms
proof (induction ls arbitrary: text_map)
  case Nil
  show ?case by simp
next
  case (Cons stored ls)
  have "reader_next stored = Inr (map universal_newlines stored)"
    using Cons.prems by (simp add: reader_next_readable)
  moreover have "\<forall>stored \<in> set ls.
             \<not> list_ex (\<lambda>cell. field_size_limit < length cell) (map universal_newlines stored)"
    using Cons.prems by simp
  ultimately show ?case
    by (simp add: Cons.IH Let_def)
qed

lemma text_map_lookup:
  assumes "r \<in> set rs"
    and "dict_get r ''event_item_id'' '''' = k" and "k \<noteq> []"
    and "dict_get r ''Agenda_item_fulltext'' '''' = t" and "t \<noteq> []"
    and "\<forall>r' \<in> set rs. dict_get r' ''event_item_id'' '''' = k
            \<and> dict_get r' ''Agenda_item_fulltext'' '''' \<noteq> []
          \<longrightarrow> dict_get r' ''Agenda_item_fulltext'' '''' = t"
  shows "map_of (foldl (\<lambda>text_map r.
                      let key = dict_get r ''event_item_id'' '''';
                          text = dict_get r ''Agenda_item_fulltext'' ''''
                      in if key \<noteq> [] \<and> text \<noteq> [] then AList.update key text text_map
                         else text_map) acc rs) k = Some t"
  using assms(1,6)
proof (induction rs rule: rev_induct)
  case Nil
  then show ?case by simp
next
  case (snoc x xs)
  show ?case
  proof (cases "dict_get x ''event_item_id'' '''' = k \<and> dict_get x ''Agenda_item_fulltext'' '''' \<noteq> []")
    case True
    then have "dict_get x ''Agenda_item_fulltext'' '''' = t"
      using snoc.prems(2) by simp
    with True assms(3,5) show ?thesis
      by (simp add: Let_def update_conv')
  next
    case False
    then have "x \<noteq> r"
      using assms(2,4,5) by auto
    then have "r \<in> set xs"
      using snoc.prems(1) by simp
    moreover have "\<forall>r' \<in> set xs. dict_get r' ''event_item_id'' '''' = k
            \<and> dict_get r' ''Agenda_item_fulltext'' '''' \<noteq> []
          \<longrightarrow> dict_get r' ''Agenda_item_fulltext'' '''' = t"
      using snoc.prems(2) by simp
    ultimately have "map_of (foldl (\<lambda>text_map r.
                      let key = dict_get r ''event_item_id'' '''';
                          text = dict_get r ''Agenda_item_fulltext'' ''''
                      in if key \<noteq> [] \<and> text \<noteq> [] then AList.update key text text_map
                         else text_map) acc xs) k = Some t"
      by (rule snoc.IH)
    with False show ?thesis
      by (auto simp: Let_def update_conv')
  qed
qed

lemma readable_text_is_carried_over:
  assumes "skip_text self"
    and "votes_file fs = Some f"
    and "\<forall>stored \<in> set (header f # lines f).
           \<not> list_ex (\<lambda>cell. field_size_limit < length cell) (map universal_newlines stored)"
    and "stored \<in> set (lines f)" and "stored \<noteq> []"
    and "r = dict_row (map universal_newlines (header f)) (map universal_newlines stored)"
    and "dict_get r ''event_item_id'' '''' = py_str_int x"
    and "dict_get r ''Agenda_item_fulltext'' '''' = text"
    and "text \<noteq> []"
    and "\<forall>other \<in> set (lines f).
           dict_get (dict_row (map universal_newlines (header f)) (map universal_newlines other))
               ''event_item_id'' '''' = py_str_int x
           \<and> dict_get (dict_row (map universal_newlines (header f)) (map universal_newlines other))
               ''Agenda_item_fulltext'' '''' \<noteq> []
         \<longrightarrow> dict_get (dict_row (map universal_newlines (header f)) (map universal_newlines other))
               ''Agenda_item_fulltext'' '''' = text"
  shows "length (run_text_phase self scrape_full_text fs all_items) = length all_items
         \<and> (\<forall>i < length all_items.
               event_item_id (all_items ! i) = x \<longrightarrow>
               run_text_phase self scrape_full_text fs all_items ! i
                 = (all_items ! i)\<lparr>Agenda_item_fulltext := text\<rparr>)"
proof -
  let ?fn = "map universal_newlines (header f)"
  let ?rows = "map (dict_row ?fn)
                 (filter (\<lambda>cells. cells \<noteq> []) (map (map universal_newlines) (lines f)))"
  have head: "reader_next (header f) = Inr ?fn"
    using assms(3) by (simp add: reader_next_readable)
  have body: "\<forall>stored \<in> set (lines f).
             \<not> list_ex (\<lambda>cell. field_size_limit < length cell) (map universal_newlines stored)"
    using assms(3) by simp
  have member: "r \<in> set ?rows"
    using assms(4,5,6) by auto
  have unique: "\<forall>r' \<in> set ?rows.
            dict_get r' ''event_item_id'' '''' = py_str_int x
            \<and> dict_get r' ''Agenda_item_fulltext'' '''' \<noteq> []
          \<longrightarrow> dict_get r' ''Agenda_item_fulltext'' '''' = text"
    using assms(10) by auto
  have found: "map_of (load_existing_text fs) (py_str_int x) = Some text"
    unfolding load_existing_text_def Let_def
    by (simp add: assms(2) head collect_texts_readable [OF body, unfolded Let_def]
          text_map_lookup [OF member assms(7) py_str_int_not_empty assms(8,9) unique,
                           unfolded Let_def])
  then have "load_existing_text fs \<noteq> []"
    by auto
  with found assms(1) show ?thesis
    by (simp add: run_text_phase_def Let_def)
qed

text \<open>
  C8. The text of an earlier run is not always reproduced unchanged. A stored text with
  a carriage return before a line feed is read back with the line feed alone, and the
  item of that identifier is given the altered text. A stored cell of more than 131072
  characters stops the reading: the item of that row and the items of all later rows get
  no text from the file.
\<close>

theorem load_existing_text_alters_stored_text:
  "run_text_phase (sample_workflow True False {}) (\<lambda>items. items)
      \<lparr>votes_file =
         Some \<lparr>header = [''event_item_id'', ''Agenda_item_fulltext''],
               lines = [[''10'', ''SECTION 1.'' @ [carriage_return, line_feed] @ ''SECTION 2.'']]\<rparr>,
       voted_items_file = None, persons_file = None\<rparr>
      [sample_item 1 10 (Some 1) None [] []]
     = [(sample_item 1 10 (Some 1) None [] [])
          \<lparr>Agenda_item_fulltext := ''SECTION 1.'' @ [line_feed] @ ''SECTION 2.''\<rparr>]
   \<and> ''SECTION 1.'' @ [line_feed] @ ''SECTION 2.''
       \<noteq> ''SECTION 1.'' @ [carriage_return, line_feed] @ ''SECTION 2.''
   \<and> load_existing_text
         \<lparr>votes_file =
            Some \<lparr>header = [''event_item_id'', ''Agenda_item_fulltext''],
                  lines = [[''9'', ''kept''], [''10'', replicate 131073 CHR ''a''],
                           [''11'', ''lost'']]\<rparr>,
          voted_items_file = None, persons_file = None\<rparr>
       = [(''9'', ''kept'')]"
proof -
  have ten: "py_str_int 10 = ''10''"
    by (simp add: py_str_int_def py_str_nat.simps digit_char_def)
  have plain: "universal_newlines (replicate 131073 CHR ''a'') = replicate 131073 CHR ''a''"
    by (rule universal_newlines_plain) (simp add: carriage_return_def)
  have first: "load_existing_text
      \<lparr>votes_file =
         Some \<lparr>header = [''event_item_id'', ''Agenda_item_fulltext''],
               lines = [[''10'', ''SECTION 1.'' @ [carriage_return, line_feed] @ ''SECTION 2.'']]\<rparr>,
       voted_items_file = None, persons_file = None\<rparr>
     = [(''10'', ''SECTION 1.'' @ [line_feed] @ ''SECTION 2.'')]"
    by (simp add: load_existing_text_def reader_next_def field_size_limit_def dict_row_def
          dict_get_def carriage_return_def line_feed_def)
  have second: "load_existing_text
         \<lparr>votes_file =
            Some \<lparr>header = [''event_item_id'', ''Agenda_item_fulltext''],
                  lines = [[''9'', ''kept''], [''10'', replicate 131073 CHR ''a''],
                           [''11'', ''lost'']]\<rparr>,
          voted_items_file = None, persons_file = None\<rparr>
       = [(''9'', ''kept'')]"
    by (simp add: load_existing_text_def reader_next_def field_size_limit_def dict_row_def
          dict_get_def carriage_return_def plain)
  have third: "''SECTION 1.'' @ [line_feed] @ ''SECTION 2.''
       \<noteq> ''SECTION 1.'' @ [carriage_return, line_feed] @ ''SECTION 2.''"
    by (simp add: carriage_return_def line_feed_def)
  have "run_text_phase (sample_workflow True False {}) (\<lambda>items. items)
      \<lparr>votes_file =
         Some \<lparr>header = [''event_item_id'', ''Agenda_item_fulltext''],
               lines = [[''10'', ''SECTION 1.'' @ [carriage_return, line_feed] @ ''SECTION 2.'']]\<rparr>,
       voted_items_file = None, persons_file = None\<rparr>
      [sample_item 1 10 (Some 1) None [] []]
     = [(sample_item 1 10 (Some 1) None [] [])
          \<lparr>Agenda_item_fulltext := ''SECTION 1.'' @ [line_feed] @ ''SECTION 2.''\<rparr>]"
    unfolding run_text_phase_def first
    by (simp add: sample_workflow_def sample_item_def ten)
  with second third show ?thesis
    by blast
qed

section \<open>Properties of matter enrichment\<close>

lemma unique_matter_ids_foldl:
  "foldl (\<lambda>ids itm.
            case matter_id itm of
              None \<Rightarrow> ids
            | Some mid \<Rightarrow> if mid \<noteq> 0 then insert mid ids else ids) A items
     = A \<union> {mid. mid \<noteq> 0 \<and> Some mid \<in> matter_id ` set items}"
proof (induction items arbitrary: A)
  case Nil
  show ?case by simp
next
  case (Cons itm items)
  show ?case
    by (cases "matter_id itm") (auto simp: Cons.IH)
qed

lemma unique_matter_ids_eq:
  "unique_matter_ids items = {mid. mid \<noteq> 0 \<and> Some mid \<in> matter_id ` set items}"
  by (simp add: unique_matter_ids_def unique_matter_ids_foldl)

lemma finite_unique_matter_ids: "finite (unique_matter_ids items)"
proof -
  have "unique_matter_ids items \<subseteq> the ` (matter_id ` set items)"
  proof
    fix mid
    assume "mid \<in> unique_matter_ids items"
    then have "Some mid \<in> matter_id ` set items"
      by (simp add: unique_matter_ids_eq)
    then have "the (Some mid) \<in> the ` (matter_id ` set items)"
      by (rule imageI)
    then show "mid \<in> the ` (matter_id ` set items)"
      by simp
  qed
  then show ?thesis
    by (rule finite_subset) simp
qed

lemma fetch_loop_log:
  "snd (foldl (fetch_and_cache svc) (cache, log) ms)
     = log @ concat (map (\<lambda>mid. [GetMatter mid, GetMatterAttachments mid]) ms)"
  by (induction ms arbitrary: cache log)
     (simp_all add: fetch_and_cache_def fetch_matter_details_def fetch_matter_attachments_def)

lemma fetch_loop_cache:
  "map_of (fst (foldl (fetch_and_cache svc) (cache, log) ms)) mid
     = (if mid \<in> set ms
        then Some \<lparr>details = matter_response svc mid,
                   attachments = (case attachments_response svc mid of None \<Rightarrow> [] | Some atts \<Rightarrow> atts)\<rparr>
        else map_of cache mid)"
  by (induction ms arbitrary: cache log)
     (simp_all add: fetch_and_cache_def fetch_matter_details_def fetch_matter_attachments_def
        update_conv')

lemma count_fetches:
  "distinct ms \<Longrightarrow>
   count_list (concat (map (\<lambda>mid. [GetMatter mid, GetMatterAttachments mid]) ms)) (GetMatter m)
     = (if m \<in> set ms then 1 else 0)
   \<and> count_list (concat (map (\<lambda>mid. [GetMatter mid, GetMatterAttachments mid]) ms))
        (GetMatterAttachments m)
     = (if m \<in> set ms then 1 else 0)"
  by (induction ms) auto

lemma populate_item_steps:
  "populate_item cache itm =
     (case matter_id itm of
        None \<Rightarrow> itm
      | Some mid \<Rightarrow>
          if mid \<noteq> 0 then
            (case map_of cache mid of
               None \<Rightarrow> itm
             | Some entry \<Rightarrow> apply_attachments (attachments entry) (apply_details (details entry) itm))
          else itm)"
  unfolding populate_item_def apply_details_def apply_attachments_def Let_def
  by (simp split: option.splits)

lemma matter_id_apply_details [simp]: "matter_id (apply_details d itm) = matter_id itm"
  by (simp add: apply_details_def split: option.splits)

lemma matter_id_apply_attachments [simp]: "matter_id (apply_attachments a itm) = matter_id itm"
  by (simp add: apply_attachments_def)

lemma matter_id_populate_item [simp]: "matter_id (populate_item cache itm) = matter_id itm"
  by (simp add: populate_item_steps split: option.splits)

lemma apply_details_failed [simp]:
  "apply_details None itm = itm" "apply_details (Some []) itm = itm"
  by (simp_all add: apply_details_def)

lemma apply_attachments_none [simp]: "apply_attachments [] itm = itm"
  by (simp add: apply_attachments_def)

lemma apply_attachments_twice [simp]:
  "apply_attachments a (apply_attachments a itm) = apply_attachments a itm"
  by (simp add: apply_attachments_def)

lemma apply_details_commute:
  "apply_details d (apply_attachments a itm) = apply_attachments a (apply_details d itm)"
  by (simp add: apply_details_def apply_attachments_def split: option.splits)

lemma apply_details_twice [simp]:
  "apply_details d (apply_details d itm) = apply_details d itm"
  by (simp add: apply_details_def split: option.splits)

lemma populate_item_again:
  assumes "matter_id itm = Some mid" and "mid \<noteq> 0"
    and "map_of cache1 mid = Some \<lparr>details = d1, attachments = a1\<rparr>"
    and "map_of cache2 mid = Some \<lparr>details = d2, attachments = a2\<rparr>"
    and "d2 = d1 \<or> d2 = None \<or> d2 = Some []"
    and "a2 = a1 \<or> a2 = []"
  shows "populate_item cache2 (populate_item cache1 itm) = populate_item cache1 itm"
proof -
  have first: "populate_item cache1 itm = apply_attachments a1 (apply_details d1 itm)"
    using assms(1-3) by (simp add: populate_item_steps)
  have "populate_item cache2 (populate_item cache1 itm)
          = apply_attachments a2 (apply_details d2 (apply_attachments a1 (apply_details d1 itm)))"
    using assms(1,2,4) by (simp add: populate_item_steps [of cache2] first)
  also have "\<dots> = apply_attachments a2 (apply_attachments a1 (apply_details d2 (apply_details d1 itm)))"
    by (simp only: apply_details_commute)
  also have "apply_details d2 (apply_details d1 itm) = apply_details d1 itm"
    using assms(5) by auto
  also have "apply_attachments a2 (apply_attachments a1 (apply_details d1 itm))
               = apply_attachments a1 (apply_details d1 itm)"
    using assms(6) by auto
  finally show ?thesis
    by (simp only: first)
qed

lemma populate_item_no_matter:
  "matter_id itm = None \<or> matter_id itm = Some 0 \<Longrightarrow> populate_item cache itm = itm"
  by (auto simp: populate_item_def)

lemma unique_matter_ids_populated [simp]:
  "unique_matter_ids (map (populate_item cache) items) = unique_matter_ids items"
  by (simp add: unique_matter_ids_eq image_image)

lemma enrich_matter_data_parts:
  assumes "enrich_matter_data svc self all_items log = (self1, items1, log1)"
  shows "log1 = log @ concat (map (\<lambda>mid. [GetMatter mid, GetMatterAttachments mid])
                                (sorted_list_of_set (unique_matter_ids all_items)))"
    and "items1 = map (populate_item (matter_cache self1)) all_items"
    and "\<And>mid. mid \<in> unique_matter_ids all_items \<Longrightarrow>
           map_of (matter_cache self1) mid
             = Some \<lparr>details = matter_response svc mid,
                      attachments = (case attachments_response svc mid of
                                       None \<Rightarrow> [] | Some atts \<Rightarrow> atts)\<rparr>"
proof -
  let ?ms = "sorted_list_of_set (unique_matter_ids all_items)"
  obtain cache1 log' where loop: "foldl (fetch_and_cache svc) (matter_cache self, log) ?ms = (cache1, log')"
    by (cases "foldl (fetch_and_cache svc) (matter_cache self, log) ?ms")
  from assms loop have parts: "self1 = self\<lparr>matter_cache := cache1\<rparr>"
      "items1 = map (populate_item cache1) all_items" "log1 = log'"
    by (simp_all add: enrich_matter_data_def Let_def)
  from loop fetch_loop_log [of svc "matter_cache self" log ?ms]
  show "log1 = log @ concat (map (\<lambda>mid. [GetMatter mid, GetMatterAttachments mid]) ?ms)"
    by (simp add: parts)
  show "items1 = map (populate_item (matter_cache self1)) all_items"
    by (simp add: parts)
  fix mid
  assume "mid \<in> unique_matter_ids all_items"
  then have "mid \<in> set ?ms"
    by (simp add: finite_unique_matter_ids)
  with loop fetch_loop_cache [of svc "matter_cache self" log ?ms mid]
  show "map_of (matter_cache self1) mid
             = Some \<lparr>details = matter_response svc mid,
                      attachments = (case attachments_response svc mid of
                                       None \<Rightarrow> [] | Some atts \<Rightarrow> atts)\<rparr>"
    by (simp add: parts)
qed

text \<open>
  C7 (as the code has it). One call of \<open>enrich_matter_data\<close> requests the detail and the
  attachments of every identifier that is neither \<open>None\<close> nor 0 and occurs in the item
  list exactly once each, in ascending order, requests nothing else, and stores both
  answers in the cache under the identifier. The call does not consult the cache before
  requesting. Running it again on the items it returned leaves every item as it was when,
  for every such identifier, the second answers are the first ones or are failed or empty.
\<close>

theorem enrich_matter_data_fetch_once_and_stable:
  assumes run1: "enrich_matter_data svc self all_items log = (self1, items1, log1)"
    and run2: "enrich_matter_data svc2 self1 items1 log1 = (self2, items2, log2)"
    and stable: "\<forall>mid \<in> unique_matter_ids all_items.
        (matter_response svc2 mid = matter_response svc mid
           \<or> matter_response svc2 mid = None \<or> matter_response svc2 mid = Some [])
        \<and> (attachments_response svc2 mid = attachments_response svc mid
           \<or> attachments_response svc2 mid = None \<or> attachments_response svc2 mid = Some [])"
  shows "unique_matter_ids all_items = {mid. mid \<noteq> 0 \<and> Some mid \<in> matter_id ` set all_items}
       \<and> log1 = log @ concat (map (\<lambda>mid. [GetMatter mid, GetMatterAttachments mid])
                                  (sorted_list_of_set (unique_matter_ids all_items)))
       \<and> (\<forall>mid. count_list (drop (length log) log1) (GetMatter mid)
                    = (if mid \<in> unique_matter_ids all_items then 1 else 0)
                \<and> count_list (drop (length log) log1) (GetMatterAttachments mid)
                    = (if mid \<in> unique_matter_ids all_items then 1 else 0))
       \<and> (\<forall>mid \<in> unique_matter_ids all_items.
             map_of (matter_cache self1) mid
               = Some \<lparr>details = matter_response svc mid,
                        attachments = (case attachments_response svc mid of
                                         None \<Rightarrow> [] | Some atts \<Rightarrow> atts)\<rparr>)
       \<and> items2 = items1"
proof -
  let ?ids = "unique_matter_ids all_items"
  let ?ms = "sorted_list_of_set ?ids"
  note p1 = enrich_matter_data_parts [OF run1]
  note p2 = enrich_matter_data_parts [OF run2]
  have ids2: "unique_matter_ids items1 = ?ids"
    by (simp add: p1(2))
  have log1: "log1 = log @ concat (map (\<lambda>mid. [GetMatter mid, GetMatterAttachments mid]) ?ms)"
    by (rule p1(1))
  have "distinct ?ms" and "set ?ms = ?ids"
    by (simp_all add: finite_unique_matter_ids)
  then have counts: "count_list (drop (length log) log1) (GetMatter mid)
                    = (if mid \<in> ?ids then 1 else 0)
                \<and> count_list (drop (length log) log1) (GetMatterAttachments mid)
                    = (if mid \<in> ?ids then 1 else 0)" for mid
    using count_fetches [of ?ms mid] by (simp add: log1)
  have again: "populate_item (matter_cache self2) (populate_item (matter_cache self1) itm)
                 = populate_item (matter_cache self1) itm"
    if "itm \<in> set all_items" for itm
  proof (cases "matter_id itm = None \<or> matter_id itm = Some 0")
    case True
    then show ?thesis
      by (simp add: populate_item_no_matter)
  next
    case False
    then obtain mid where mid: "matter_id itm = Some mid" "mid \<noteq> 0"
      by auto
    with that have member: "mid \<in> ?ids"
      by (force simp: unique_matter_ids_eq)
    have c1: "map_of (matter_cache self1) mid
               = Some \<lparr>details = matter_response svc mid,
                        attachments = (case attachments_response svc mid of
                                         None \<Rightarrow> [] | Some atts \<Rightarrow> atts)\<rparr>"
      using member by (rule p1(3))
    have c2: "map_of (matter_cache self2) mid
               = Some \<lparr>details = matter_response svc2 mid,
                        attachments = (case attachments_response svc2 mid of
                                         None \<Rightarrow> [] | Some atts \<Rightarrow> atts)\<rparr>"
      using member by (intro p2(3)) (simp add: ids2)
    have d: "matter_response svc2 mid = matter_response svc mid
           \<or> matter_response svc2 mid = None \<or> matter_response svc2 mid = Some []"
      using stable member by blast
    have a: "(case attachments_response svc2 mid of None \<Rightarrow> [] | Some atts \<Rightarrow> atts)
               = (case attachments_response svc mid of None \<Rightarrow> [] | Some atts \<Rightarrow> atts)
             \<or> (case attachments_response svc2 mid of None \<Rightarrow> [] | Some atts \<Rightarrow> atts) = []"
      using stable member by (auto split: option.splits)
    show ?thesis
      using mid c1 c2 d a by (rule populate_item_again)
  qed
  have "items2 = map (populate_item (matter_cache self2)) (map (populate_item (matter_cache self1)) all_items)"
    by (simp only: p2(2) p1(2) [symmetric])
  also have "\<dots> = map (populate_item (matter_cache self1)) all_items"
    by (simp add: again)
  finally have "items2 = items1"
    by (simp only: p1(2) [symmetric])
  with log1 counts p1(3) show ?thesis
    by (simp add: unique_matter_ids_eq [symmetric])
qed

theorem enrich_matter_data_fetch_once_and_stable_witness:
  "unique_matter_ids [sample_item 1 10 (Some 1) (Some 5) [] []] = {5}
   \<and> snd (snd sample_first_run) = [GetMatter 5, GetMatterAttachments 5]
   \<and> map_of (matter_cache (fst sample_first_run)) 5
       = Some \<lparr>details = Some [(''MatterTitle'', Some ''A'')], attachments = []\<rparr>
   \<and> fst (snd (enrich_matter_data (sample_service ''A'') (fst sample_first_run)
                  (fst (snd sample_first_run)) (snd (snd sample_first_run))))
       = fst (snd sample_first_run)"
proof -
  let ?items = "[sample_item 1 10 (Some 1) (Some 5) [] []]"
  let ?second = "enrich_matter_data (sample_service ''A'') (fst sample_first_run)
                   (fst (snd sample_first_run)) (snd (snd sample_first_run))"
  have ids: "unique_matter_ids ?items = {5}"
    by (simp add: unique_matter_ids_def sample_item_def)
  have run1: "enrich_matter_data (sample_service ''A'') (sample_workflow False False {}) ?items []
                = (fst sample_first_run, fst (snd sample_first_run), snd (snd sample_first_run))"
    by (simp add: sample_first_run_def)
  have run2: "?second = (fst ?second, fst (snd ?second), snd (snd ?second))"
    by simp
  have stable: "\<forall>mid \<in> unique_matter_ids ?items.
        (matter_response (sample_service ''A'') mid = matter_response (sample_service ''A'') mid
           \<or> matter_response (sample_service ''A'') mid = None
           \<or> matter_response (sample_service ''A'') mid = Some [])
        \<and> (attachments_response (sample_service ''A'') mid
              = attachments_response (sample_service ''A'') mid
           \<or> attachments_response (sample_service ''A'') mid = None
           \<or> attachments_response (sample_service ''A'') mid = Some [])"
    by simp
  note t = enrich_matter_data_fetch_once_and_stable [OF run1 run2 stable]
  have "snd (snd sample_first_run) = [GetMatter 5, GetMatterAttachments 5]"
    using t [THEN conjunct2, THEN conjunct1] by (simp add: ids)
  moreover have "map_of (matter_cache (fst sample_first_run)) 5
       = Some \<lparr>details = Some [(''MatterTitle'', Some ''A'')], attachments = []\<rparr>"
    using t [THEN conjunct2, THEN conjunct2, THEN conjunct2, THEN conjunct1]
    by (simp add: ids sample_service_def)
  moreover have "fst (snd ?second) = fst (snd sample_first_run)"
    using t [THEN conjunct2, THEN conjunct2, THEN conjunct2, THEN conjunct2] .
  ultimately show ?thesis
    using ids by blast
qed

text \<open>
  C7 as stated fails: with the cache filled for matter 5 by a first run, a second run
  requests matter 5 again and overwrites the title written before when the service
  answers differently; and an item whose identifier is 0 (not \<open>None\<close>) causes no request.
\<close>

theorem enrich_matter_data_refetches_counterexample:
  "map_of (matter_cache (fst sample_first_run)) 5
     = Some \<lparr>details = Some [(''MatterTitle'', Some ''A'')], attachments = []\<rparr>
   \<and> map matter_title (fst (snd sample_first_run)) = [''A'']
   \<and> map matter_title (fst (snd sample_second_run)) = [''B'']
   \<and> count_list (snd (snd sample_second_run)) (GetMatter 5) = 2
   \<and> snd (snd (enrich_matter_data (sample_service ''A'') (sample_workflow False False {})
                  [sample_item 1 11 None (Some 0) [] []] [])) = []"
  by code_simp

section \<open>What vote assignment leaves untouched\<close>

lemma dict_store_last:
  "dict_store (st @ [ODict d]) (length st) k v = st @ [ODict (AList.update k v d)]"
  by (simp add: dict_store_def deref_def)

lemma foldl_dict_store:
  "foldl (\<lambda>st member. dict_store st (length st0) member (f member)) (st0 @ [ODict d]) ms
     = st0 @ [ODict (foldl (\<lambda>votes member. AList.update member (f member) votes) d ms)]"
  by (induction ms arbitrary: d) (simp_all add: dict_store_last)

lemma assign_votes_store_as_updates:
  assumes "deref st self = Some (OWorkflow w)"
    and "deref st item_ref = Some (OItem itm)"
    and "deref st members_ref = Some (OList ms)"
  shows "assign_votes_store st self item_ref members_ref
           = Inr (length st,
                  foldl (\<lambda>st' member. dict_store st' (length st) member (member_vote itm member))
                    (st @ [ODict []]) ms)"
  using assms
  unfolding assign_votes_store_def Let_def member_vote_def recorded_or_attendance_def consent_vote_def
  by (auto intro!: foldl_cong split: option.splits)

lemma assign_votes_store_result:
  assumes "deref st self = Some (OWorkflow w)"
    and "deref st item_ref = Some (OItem itm)"
    and "deref st members_ref = Some (OList ms)"
  shows "assign_votes_store st self item_ref members_ref
           = Inr (length st, st @ [ODict (assign_votes itm ms)])"
  by (simp only: assign_votes_store_as_updates [OF assms] foldl_dict_store assign_votes_as_updates)

lemma deref_append:
  "deref st r = Some obj \<Longrightarrow> deref (st @ extra) r = Some obj"
  by (auto simp: deref_def nth_append split: if_splits)

text \<open>
  C10. \<open>assign_votes\<close> changes nothing it is given: on a store holding the workflow, the
  item (with its per-item votes and its attendance) and the member list, the call
  returns a reference to a new dictionary and leaves the store as it was, followed by
  that dictionary, which holds the computed votes. A second call on the same item and
  member list therefore finds the same objects and returns another new dictionary with
  equal content, again leaving every earlier object as it was.
\<close>

theorem assign_votes_store_frame:
  assumes "deref st self = Some (OWorkflow w)"
    and "deref st item_ref = Some (OItem itm)"
    and "deref st members_ref = Some (OList members_list)"
  shows "assign_votes_store st self item_ref members_ref
           = Inr (length st, st @ [ODict (assign_votes itm members_list)])
       \<and> assign_votes_store (st @ [ODict (assign_votes itm members_list)]) self item_ref members_ref
           = Inr (Suc (length st),
                  st @ [ODict (assign_votes itm members_list), ODict (assign_votes itm members_list)])"
proof -
  let ?st1 = "st @ [ODict (assign_votes itm members_list)]"
  have first: "assign_votes_store st self item_ref members_ref = Inr (length st, ?st1)"
    using assms by (rule assign_votes_store_result)
  have "assign_votes_store ?st1 self item_ref members_ref
          = Inr (length ?st1, ?st1 @ [ODict (assign_votes itm members_list)])"
    using assms [THEN deref_append] by (rule assign_votes_store_result)
  with first show ?thesis
    by simp
qed

theorem assign_votes_store_frame_witness:
  "deref [OWorkflow (sample_workflow False False {''Ann'', ''Bob''}),
          OItem (sample_item 1 10 (Some 1) None [(''Bob'', ''Absent'')] []),
          OList [''Ann'', ''Bob'']] 0
     = Some (OWorkflow (sample_workflow False False {''Ann'', ''Bob''}))
   \<and> assign_votes_store
         [OWorkflow (sample_workflow False False {''Ann'', ''Bob''}),
          OItem (sample_item 1 10 (Some 1) None [(''Bob'', ''Absent'')] []),
          OList [''Ann'', ''Bob'']] 0 1 2
       = Inr (3, [OWorkflow (sample_workflow False False {''Ann'', ''Bob''}),
                  OItem (sample_item 1 10 (Some 1) None [(''Bob'', ''Absent'')] []),
                  OList [''Ann'', ''Bob''],
                  ODict [(''Ann'', ''Yes''), (''Bob'', ''Absent'')]])"
proof -
  let ?w = "sample_workflow False False {''Ann'', ''Bob''}"
  let ?itm = "sample_item 1 10 (Some 1) None [(''Bob'', ''Absent'')] []"
  let ?st = "[OWorkflow ?w, OItem ?itm, OList [''Ann'', ''Bob'']]"
  have h0: "deref ?st 0 = Some (OWorkflow ?w)"
    by (simp add: deref_def)
  have h1: "deref ?st 1 = Some (OItem ?itm)"
    by (simp add: deref_def)
  have h2: "deref ?st 2 = Some (OList [''Ann'', ''Bob''])"
    by (simp add: deref_def)
  have votes: "assign_votes ?itm [''Ann'', ''Bob''] = [(''Ann'', ''Yes''), (''Bob'', ''Absent'')]"
    by (simp add: assign_votes_def sample_item_def dict_get_def)
  from assign_votes_store_frame [OF h0 h1 h2, THEN conjunct1] h0 show ?thesis
    by (simp add: votes)
qed

text \<open>
  In \<open>write_output\<close> the line of an item in the voted-items file is the line the same
  item has in the votes file: both come from one more call of \<open>assign_votes\<close> on it.
\<close>

lemma write_rows_filter:
  "write_rows fieldnames ms (filter P items)
     = map snd (filter (\<lambda>(itm, written). P itm) (zip items (write_rows fieldnames ms items)))"
  unfolding write_rows_map by (induction items) simp_all

end
